theory Spec2Isabelle
  imports Main "HOL-Library.Log_Nat"
begin

section \<open>JavaScript numbers\<close>

text \<open>
  Every number of the program is a JavaScript \<^verbatim>\<open>number\<close>, an IEEE 754 binary64 value.
  A finite value is represented by the rational it denotes; the two zeros are identified
  (as \<^verbatim>\<open>===\<close> does). Every arithmetic operation computes the exact result and
  rounds it to the nearest binary64 value, ties to even, overflowing to an infinity.
\<close>

datatype number = Fin rat | PInf | NInf | NaN

text \<open>\<open>ilog2 x\<close> is the binary exponent of a positive rational: \<open>2 ^ ilog2 x \<le> x < 2 ^ (ilog2 x + 1)\<close>.\<close>

definition ilog2 :: "rat \<Rightarrow> int" where
  "ilog2 x = (if 1 \<le> x then bitlen \<lfloor>x\<rfloor> - 1 else - bitlen (\<lceil>1 / x\<rceil> - 1))"

text \<open>Rounding a rational to the nearest integer, ties to the even one.\<close>

definition rne :: "rat \<Rightarrow> int" where
  "rne q = (let f = \<lfloor>q\<rfloor>; r = q - of_int f
            in if r < 1 / 2 then f else if 1 / 2 < r then f + 1
               else if even f then f else f + 1)"

text \<open>
  Rounding to 53 significant bits with the least exponent \<open>- 1022\<close> of binary64 (below it
  the subnormal numbers share the spacing \<open>2 ^ - 1074\<close>), the exponent not yet bounded above.
\<close>

definition rnd :: "rat \<Rightarrow> rat" where
  "rnd x = (if x = 0 then 0
            else let e = max (ilog2 \<bar>x\<bar>) (- 1022); u = 2 powi (e - 52)
                 in of_int (rne (x / u)) * u)"

text \<open>The rounding of binary64: a rounded magnitude of \<open>2 ^ 1024\<close> or more is an infinity.\<close>

definition fl :: "rat \<Rightarrow> number" where
  "fl x = (let r = rnd x
           in if 2 ^ 1024 \<le> r then PInf else if r \<le> - (2 ^ 1024) then NInf else Fin r)"

text \<open>A finite binary64 value: rounding leaves it as it is.\<close>

definition is_double :: "rat \<Rightarrow> bool" where
  "is_double x \<longleftrightarrow> fl x = Fin x"

text \<open>A numeric literal of the source denotes the binary64 value nearest to its decimal value.\<close>

definition js_lit :: "rat \<Rightarrow> number" where
  "js_lit r = fl r"

fun jneg :: "number \<Rightarrow> number" where
  "jneg (Fin a) = Fin (- a)"
| "jneg PInf = NInf"
| "jneg NInf = PInf"
| "jneg NaN = NaN"

text \<open>\<^verbatim>\<open>a + b\<close>\<close>

fun jadd :: "number \<Rightarrow> number \<Rightarrow> number" where
  "jadd (Fin a) (Fin b) = fl (a + b)"
| "jadd NaN _ = NaN"
| "jadd _ NaN = NaN"
| "jadd PInf NInf = NaN"
| "jadd NInf PInf = NaN"
| "jadd PInf _ = PInf"
| "jadd _ PInf = PInf"
| "jadd NInf _ = NInf"
| "jadd _ NInf = NInf"

text \<open>\<^verbatim>\<open>a - b\<close>\<close>

definition jsub :: "number \<Rightarrow> number \<Rightarrow> number" where
  "jsub a b = jadd a (jneg b)"

text \<open>\<^verbatim>\<open>a * b\<close>\<close>

fun jmul :: "number \<Rightarrow> number \<Rightarrow> number" where
  "jmul (Fin a) (Fin b) = fl (a * b)"
| "jmul NaN _ = NaN"
| "jmul _ NaN = NaN"
| "jmul (Fin a) b = (if a = 0 then NaN else if 0 < a then b else jneg b)"
| "jmul a (Fin b) = (if b = 0 then NaN else if 0 < b then a else jneg a)"
| "jmul PInf b = b"
| "jmul NInf b = jneg b"

text \<open>\<^verbatim>\<open>a / b\<close> (a zero divisor is taken as the positive zero)\<close>

fun jdiv :: "number \<Rightarrow> number \<Rightarrow> number" where
  "jdiv (Fin a) (Fin b) =
     (if b = 0 then (if a = 0 then NaN else if 0 < a then PInf else NInf) else fl (a / b))"
| "jdiv NaN _ = NaN"
| "jdiv _ NaN = NaN"
| "jdiv (Fin a) _ = Fin 0"
| "jdiv PInf (Fin b) = (if 0 \<le> b then PInf else NInf)"
| "jdiv NInf (Fin b) = (if 0 \<le> b then NInf else PInf)"
| "jdiv PInf _ = NaN"
| "jdiv NInf _ = NaN"

text \<open>\<^verbatim>\<open>a >= b\<close>: false as soon as one side is NaN.\<close>

fun jge :: "number \<Rightarrow> number \<Rightarrow> bool" where
  "jge (Fin a) (Fin b) = (b \<le> a)"
| "jge NaN _ = False"
| "jge _ NaN = False"
| "jge PInf _ = True"
| "jge _ NInf = True"
| "jge NInf _ = False"
| "jge _ PInf = False"

text \<open>\<^verbatim>\<open>Math.round\<close>: the nearest integer, a half rounded towards \<open>+\<infinity>\<close>.\<close>

fun Math_round :: "number \<Rightarrow> number" where
  "Math_round (Fin x) = Fin (of_int \<lfloor>x + 1 / 2\<rfloor>)"
| "Math_round n = n"

section \<open>The confidence calculator\<close>

text \<open>
  An object literal with number-valued properties is the list of its entries in insertion
  order, which is the order of \<^verbatim>\<open>Object.entries\<close>. Reading a property that is absent
  gives \<^verbatim>\<open>undefined\<close>, which arithmetic turns into NaN.
\<close>

type_synonym obj = "(string \<times> number) list"

definition get_prop :: "obj \<Rightarrow> string \<Rightarrow> number" where
  "get_prop ob k = (case map_of ob k of Some v \<Rightarrow> v | None \<Rightarrow> NaN)"

record ConfidenceInputs =
  voiceVolume :: number
  voiceStability :: number
  pauseFrequency :: number
  facialConfidence :: number
  emotionPositivity :: number
  answerQuality :: number
  answerCompleteness :: number

record ConfidenceResult =
  score :: number
  level :: string
  breakdown :: obj

subsection \<open>AI-COMPLETE-CODE.tsx\<close>

definition weights :: obj where
  "weights =
    [(''voiceVolume'', js_lit (15 / 100)),
     (''voiceStability'', js_lit (15 / 100)),
     (''pauseFrequency'', js_lit (1 / 10)),
     (''facialConfidence'', js_lit (2 / 10)),
     (''emotionPositivity'', js_lit (1 / 10)),
     (''answerQuality'', js_lit (15 / 100)),
     (''answerCompleteness'', js_lit (15 / 100))]"

definition normalized :: "ConfidenceInputs \<Rightarrow> obj" where
  "normalized inputs =
    [(''voiceVolume'', voiceVolume inputs),
     (''voiceStability'', voiceStability inputs),
     (''pauseFrequency'', jsub (js_lit 100) (pauseFrequency inputs)),
     (''facialConfidence'', facialConfidence inputs),
     (''emotionPositivity'', jadd (emotionPositivity inputs) (js_lit 50)),
     (''answerQuality'', answerQuality inputs),
     (''answerCompleteness'', answerCompleteness inputs)]"

text \<open>The local \<^verbatim>\<open>score\<close>: the \<^verbatim>\<open>reduce\<close> over the entries, before rounding.\<close>

definition weighted_sum :: "ConfidenceInputs \<Rightarrow> number" where
  "weighted_sum inputs =
     foldl (\<lambda>total (key, v). jadd total (jmul v (get_prop weights key)))
       (js_lit 0) (normalized inputs)"

definition calculateConfidenceScore :: "ConfidenceInputs \<Rightarrow> ConfidenceResult" where
  "calculateConfidenceScore inputs =
     (let sc = weighted_sum inputs;
          lv = (if jge sc (js_lit 80) then ''Very Confident''
                else if jge sc (js_lit 65) then ''Confident''
                else if jge sc (js_lit 50) then ''Moderately Confident''
                else ''Needs Improvement'')
      in \<lparr>score = Math_round sc, level = lv, breakdown = normalized inputs\<rparr>)"

subsection \<open>AI\_FEATURES\_IMPLEMENTATION.md, confidenceCalculator.ts\<close>

definition normalizedInputs :: "ConfidenceInputs \<Rightarrow> obj" where
  "normalizedInputs inputs =
    [(''voiceVolume'', voiceVolume inputs),
     (''voiceStability'', voiceStability inputs),
     (''pauseFrequency'', jsub (js_lit 100) (pauseFrequency inputs)),
     (''facialConfidence'', facialConfidence inputs),
     (''emotionPositivity'', jadd (emotionPositivity inputs) (jdiv (js_lit 100) (js_lit 2))),
     (''answerQuality'', answerQuality inputs),
     (''answerCompleteness'', answerCompleteness inputs)]"

definition weighted_sum_md :: "ConfidenceInputs \<Rightarrow> number" where
  "weighted_sum_md inputs =
     (let n = normalizedInputs inputs in
      jadd (jadd (jadd (jadd (jadd (jadd
        (jmul (get_prop n ''voiceVolume'') (get_prop weights ''voiceVolume''))
        (jmul (get_prop n ''voiceStability'') (get_prop weights ''voiceStability'')))
        (jmul (get_prop n ''pauseFrequency'') (get_prop weights ''pauseFrequency'')))
        (jmul (get_prop n ''facialConfidence'') (get_prop weights ''facialConfidence'')))
        (jmul (get_prop n ''emotionPositivity'') (get_prop weights ''emotionPositivity'')))
        (jmul (get_prop n ''answerQuality'') (get_prop weights ''answerQuality'')))
        (jmul (get_prop n ''answerCompleteness'') (get_prop weights ''answerCompleteness'')))"

definition getConfidenceLevel :: "number \<Rightarrow> string" where
  "getConfidenceLevel sc =
     (if jge sc (js_lit 80) then ''Very Confident''
      else if jge sc (js_lit 65) then ''Confident''
      else if jge sc (js_lit 50) then ''Moderately Confident''
      else if jge sc (js_lit 35) then ''Less Confident''
      else ''Needs Improvement'')"

definition calculateConfidenceScore_md :: "ConfidenceInputs \<Rightarrow> ConfidenceResult" where
  "calculateConfidenceScore_md inputs =
     (let sc = weighted_sum_md inputs;
          lv = getConfidenceLevel sc;
          bd = normalizedInputs inputs
      in \<lparr>score = Math_round sc, level = lv, breakdown = bd\<rparr>)"

text \<open>The inputs of the integration example (QUICK\_START\_CODE.md, \<^verbatim>\<open>confidenceData\<close>).\<close>

definition confidenceData :: ConfidenceInputs where
  "confidenceData =
     \<lparr>voiceVolume = js_lit 75, voiceStability = js_lit 80, pauseFrequency = js_lit 20,
      facialConfidence = js_lit 85, emotionPositivity = js_lit 40, answerQuality = js_lit 78,
      answerCompleteness = js_lit 82\<rparr>"

text \<open>A number a caller may pass within the meaning of the arithmetic: a finite binary64 value.\<close>

fun fin_double :: "number \<Rightarrow> bool" where
  "fin_double (Fin x) = is_double x"
| "fin_double n = False"

definition finite_inputs :: "ConfidenceInputs \<Rightarrow> bool" where
  "finite_inputs inputs \<longleftrightarrow>
     fin_double (voiceVolume inputs) \<and> fin_double (voiceStability inputs) \<and>
     fin_double (pauseFrequency inputs) \<and> fin_double (facialConfidence inputs) \<and>
     fin_double (emotionPositivity inputs) \<and> fin_double (answerQuality inputs) \<and>
     fin_double (answerCompleteness inputs)"

text \<open>Further concrete inputs, all inside the documented ranges.\<close>

definition borderline_inputs :: ConfidenceInputs where
  "borderline_inputs =
     \<lparr>voiceVolume = js_lit 75, voiceStability = js_lit 80, pauseFrequency = js_lit 20,
      facialConfidence = js_lit 85, emotionPositivity = js_lit 40, answerQuality = js_lit 78,
      answerCompleteness = js_lit 72\<rparr>"

definition maximal_inputs :: ConfidenceInputs where
  "maximal_inputs =
     \<lparr>voiceVolume = js_lit 100, voiceStability = js_lit 100, pauseFrequency = js_lit 0,
      facialConfidence = js_lit 100, emotionPositivity = js_lit 100, answerQuality = js_lit 100,
      answerCompleteness = js_lit 100\<rparr>"

definition low_inputs :: ConfidenceInputs where
  "low_inputs =
     \<lparr>voiceVolume = js_lit 60, voiceStability = js_lit 40, pauseFrequency = js_lit 30,
      facialConfidence = js_lit 40, emotionPositivity = js_lit 10, answerQuality = js_lit 30,
      answerCompleteness = js_lit 30\<rparr>"

definition higher_inputs :: ConfidenceInputs where
  "higher_inputs =
     \<lparr>voiceVolume = js_lit 90, voiceStability = js_lit 85, pauseFrequency = js_lit 10,
      facialConfidence = js_lit 95, emotionPositivity = js_lit 60, answerQuality = js_lit 88,
      answerCompleteness = js_lit 92\<rparr>"

text \<open>Two inputs with infinite fields, differing in the voice volume only.\<close>

definition infinite_inputs_low :: ConfidenceInputs where
  "infinite_inputs_low =
     \<lparr>voiceVolume = Fin 0, voiceStability = NInf, pauseFrequency = Fin 20,
      facialConfidence = Fin 85, emotionPositivity = Fin 40, answerQuality = Fin 78,
      answerCompleteness = Fin 82\<rparr>"

definition infinite_inputs_high :: ConfidenceInputs where
  "infinite_inputs_high =
     \<lparr>voiceVolume = PInf, voiceStability = NInf, pauseFrequency = Fin 20,
      facialConfidence = Fin 85, emotionPositivity = Fin 40, answerQuality = Fin 78,
      answerCompleteness = Fin 82\<rparr>"

section \<open>The backend routes\<close>

text \<open>
  The values an Express handler reads and sends. \<open>req.body\<close> is \<open>None\<close> when it is
  \<^verbatim>\<open>undefined\<close> (no body was parsed). The numbers of the mock answers are integer literals.
\<close>

datatype json = JNull | JBool bool | JNum int | JStr string | JArr "json list"
  | JObj "(string \<times> json) list"

record request =
  authorization :: "string option"
  body :: "json option"
  user :: "json option"

text \<open>\<^verbatim>\<open>res.sendStatus(c)\<close> and \<^verbatim>\<open>res.status(c).json(v)\<close>; \<^verbatim>\<open>res.json(v)\<close> has status 200.\<close>

datatype response = SendStatus nat | SendJson nat json

text \<open>\<^verbatim>\<open>s.split(' ')\<close>\<close>

fun split_space :: "string \<Rightarrow> string list" where
  "split_space [] = [[]]"
| "split_space (c # cs) =
     (if c = CHR '' '' then [] # split_space cs
      else (case split_space cs of [] \<Rightarrow> [[c]] | w # ws \<Rightarrow> (c # w) # ws))"

text \<open>
  SETUP.md, \<^verbatim>\<open>authenticateToken\<close>. The library call \<^verbatim>\<open>jwt.verify(token, secret)\<close> is the
  parameter \<open>jwt_verify\<close>: the decoded payload, or \<open>None\<close> when it throws. The result is the
  response sent, or the request handed to \<^verbatim>\<open>next()\<close>.
\<close>

definition authenticateToken :: "(string \<Rightarrow> json option) \<Rightarrow> request \<Rightarrow> response + request" where
  "authenticateToken jwt_verify req =
     (let authHeader = authorization req;
          token = (case authHeader of None \<Rightarrow> None
                   | Some h \<Rightarrow> if h = [] then Some []
                              else (case split_space h of _ # t # _ \<Rightarrow> Some t | _ \<Rightarrow> None))
      in case token of None \<Rightarrow> Inl (SendStatus 401)
         | Some t \<Rightarrow>
             if t = [] then Inl (SendStatus 401)
             else (case jwt_verify t of None \<Rightarrow> Inl (SendStatus 403)
                   | Some u \<Rightarrow> Inr (req\<lparr>user := Some u\<rparr>)))"

text \<open>\<^verbatim>\<open>app.post(path, middleware, handler)\<close>: the handler runs when the middleware calls \<^verbatim>\<open>next()\<close>.\<close>

definition app_post ::
  "(request \<Rightarrow> response + request) \<Rightarrow> (request \<Rightarrow> response) \<Rightarrow> request \<Rightarrow> response" where
  "app_post middleware handler req =
     (case middleware req of Inl res \<Rightarrow> res | Inr req' \<Rightarrow> handler req')"

text \<open>
  A destructuring \<^verbatim>\<open>const { a, b } = req.body\<close> throws a TypeError exactly when the body is
  \<^verbatim>\<open>undefined\<close> or \<^verbatim>\<open>null\<close>; otherwise it binds the (possibly undefined) properties.
\<close>

datatype js_error = TypeError

definition destructure :: "json option \<Rightarrow> js_error + json" where
  "destructure b =
     (case b of None \<Rightarrow> Inl TypeError | Some JNull \<Rightarrow> Inl TypeError | Some v \<Rightarrow> Inr v)"

subsection \<open>The setup and deployment guide\<close>

definition evaluate_answer :: "request \<Rightarrow> response" where
  "evaluate_answer req =
     (case destructure (body req) of
        Inr _ \<Rightarrow>
          SendJson 200 (JObj [(''evaluation'', JObj
            [(''correctness'', JNum 85),
             (''completeness'', JNum 78),
             (''clarity'', JNum 82),
             (''keyPoints'', JArr [JStr ''Point 1'', JStr ''Point 2'']),
             (''missingPoints'', JArr [JStr ''Missing 1'']),
             (''suggestions'', JArr [JStr ''Add more detail'', JStr ''Be concise''])])])
      | Inl error \<Rightarrow> SendJson 500 (JObj [(''error'', JStr ''Evaluation failed'')]))"

definition analyze_facial :: "request \<Rightarrow> response" where
  "analyze_facial req =
     SendJson 200 (JObj
       [(''confidence'', JNum 85),
        (''emotions'', JObj [(''happy'', JNum 45), (''neutral'', JNum 30), (''sad'', JNum 10),
           (''angry'', JNum 5), (''fearful'', JNum 5), (''surprised'', JNum 5)]),
        (''eyeContact'', JNum 80),
        (''headPosition'', JStr ''center'')])"

subsection \<open>QUICK\_START\_CODE.md\<close>

definition evaluate_answer_qs :: "request \<Rightarrow> response" where
  "evaluate_answer_qs req =
     (case destructure (body req) of
        Inr _ \<Rightarrow>
          (let evaluation = JObj
            [(''correctness'', JNum 85),
             (''completeness'', JNum 78),
             (''clarity'', JNum 82),
             (''keyPoints'', JArr [JStr ''Key point 1'', JStr ''Key point 2'']),
             (''missingPoints'', JArr [JStr ''Missing 1'']),
             (''suggestions'', JArr [JStr ''Suggestion 1''])]
           in SendJson 200 (JObj [(''evaluation'', evaluation)]))
      | Inl error \<Rightarrow> SendJson 500 (JObj [(''error'', JStr ''Evaluation failed'')]))"

definition analyze_facial_qs :: "request \<Rightarrow> response" where
  "analyze_facial_qs req =
     (case destructure (body req) of
        Inr _ \<Rightarrow>
          SendJson 200 (JObj
            [(''confidence'', JNum 85),
             (''emotions'', JObj [(''happy'', JNum 45), (''neutral'', JNum 30),
                (''sad'', JNum 10), (''angry'', JNum 5), (''fearful'', JNum 5),
                (''surprised'', JNum 5)]),
             (''eyeContact'', JNum 80),
             (''headPosition'', JStr ''center'')])
      | Inl error \<Rightarrow> SendJson 500 (JObj [(''error'', JStr ''Analysis failed'')]))"

text \<open>
  Two requests carrying a bearer token, with and without a parsed body, and a verifier that
  accepts every token.
\<close>

definition accept_all :: "string \<Rightarrow> json option" where
  "accept_all t = Some (JStr t)"

definition bearer_request :: request where
  "bearer_request =
     \<lparr>authorization = Some ''Bearer abc'',
      body = Some (JObj [(''question'', JStr ''q''), (''userAnswer'', JStr ''a'')]),
      user = None\<rparr>"

definition bodyless_request :: request where
  "bodyless_request = \<lparr>authorization = Some ''Bearer abc'', body = None, user = None\<rparr>"

section \<open>Evaluating the rounding\<close>

lemma floor_rat_divide_numeral:
  "\<lfloor>numeral a / numeral b :: rat\<rfloor> = numeral a div numeral b"
  by (metis floor_divide_of_int_eq of_int_numeral)

lemma floor_rat_minus_divide_numeral:
  "\<lfloor>- (numeral a / numeral b) :: rat\<rfloor> = - numeral a div numeral b"
  by (metis divide_minus_left floor_divide_of_int_eq of_int_neg_numeral of_int_numeral)

lemma floor_rat_one_divide_numeral:
  "\<lfloor>1 / numeral b :: rat\<rfloor> = 1 div numeral b"
  by (metis floor_divide_of_int_eq of_int_1 of_int_numeral)

lemma floor_rat_minus_one_divide_numeral:
  "\<lfloor>- (1 / numeral b) :: rat\<rfloor> = - 1 div numeral b"
  by (metis divide_minus_left floor_divide_of_int_eq of_int_minus of_int_1 of_int_numeral)

lemma bitlen_One: "bitlen 1 = 1"
  by (subst compute_bitlen) simp

lemma bitlen_Bit0: "bitlen (numeral (Num.Bit0 n)) = bitlen (numeral n) + 1"
  by (subst compute_bitlen) simp

lemma bitlen_Bit1: "bitlen (numeral (Num.Bit1 n)) = bitlen (numeral n) + 1"
  by (subst compute_bitlen) simp

lemmas num_eval = fl_def rnd_def rne_def ilog2_def ceiling_def
  bitlen_One bitlen_Bit0 bitlen_Bit1 floor_rat_divide_numeral floor_rat_minus_divide_numeral
  floor_rat_one_divide_numeral floor_rat_minus_one_divide_numeral

text \<open>Ties go to the even significand, also at the overflow threshold.\<close>

lemma rounding_examples:
  "fl (1 + 1 / 2 ^ 53) = Fin 1"
  "fl (1 + 3 / 2 ^ 53) = Fin (1 + 1 / 2 ^ 51)"
  "fl (2 ^ 1024 - 2 ^ 970) = PInf"
  by (simp_all add: num_eval)

section \<open>Properties of the rounding\<close>

lemma ilog2_bounds:
  assumes "0 < x"
  shows "2 powi ilog2 x \<le> x \<and> x < 2 powi (ilog2 x + 1)"
proof (cases "1 \<le> x")
  case True
  define n where "n = \<lfloor>x\<rfloor>"
  have n: "0 < n" using True by (simp add: n_def)
  then have b: "1 \<le> bitlen n" by (simp add: bitlen_alt_def)
  from bitlen_bounds[OF n] have lo: "2 ^ nat (bitlen n - 1) \<le> n" and hi: "n < 2 ^ nat (bitlen n)"
    by auto
  have "(2::rat) powi (bitlen n - 1) = of_int (2 ^ nat (bitlen n - 1))"
    using b by (simp add: power_int_def)
  also have "\<dots> \<le> of_int n" using lo by (simp only: of_int_le_iff)
  also have "of_int n \<le> x" by (simp add: n_def)
  finally have 1: "2 powi (bitlen n - 1) \<le> x" .
  have "x < of_int (n + 1)" using floor_correct[of x] by (simp add: n_def)
  also have "\<dots> \<le> of_int (2 ^ nat (bitlen n))" using hi by (subst of_int_le_iff) simp
  also have "\<dots> = (2::rat) powi (bitlen n)" using b by (simp add: power_int_def)
  finally have 2: "x < 2 powi (bitlen n)" .
  show ?thesis using True 1 2 by (simp add: ilog2_def n_def)
next
  case False
  define y where "y = 1 / x"
  have x: "x = 1 / y" by (simp add: y_def)
  have y: "1 < y" using False assms by (simp add: y_def)
  define n where "n = \<lceil>y\<rceil> - 1"
  have "1 < \<lceil>y\<rceil>" using y by (simp add: less_ceiling_iff)
  then have n: "0 < n" by (simp add: n_def)
  then have b: "1 \<le> bitlen n" by (simp add: bitlen_alt_def)
  from bitlen_bounds[OF n] have lo: "2 ^ nat (bitlen n - 1) \<le> n" and hi: "n < 2 ^ nat (bitlen n)"
    by auto
  have "y \<le> of_int (n + 1)" using ceiling_correct[of y] by (simp add: n_def)
  also have "\<dots> \<le> of_int (2 ^ nat (bitlen n))" using hi by (subst of_int_le_iff) simp
  also have "\<dots> = (2::rat) powi (bitlen n)" using b by (simp add: power_int_def)
  finally have "y \<le> 2 powi (bitlen n)" .
  then have "1 / (2 powi (bitlen n)) \<le> 1 / y"
    using y by (intro divide_left_mono) auto
  then have 1: "2 powi (- bitlen n) \<le> x"
    by (simp add: x power_int_minus_divide)
  have "(2::rat) powi (bitlen n - 1) = of_int (2 ^ nat (bitlen n - 1))"
    using b by (simp add: power_int_def)
  also have "\<dots> \<le> of_int n" using lo by (simp only: of_int_le_iff)
  also have "of_int n < y" using ceiling_correct[of y] by (simp add: n_def)
  finally have "2 powi (bitlen n - 1) < y" .
  then have "1 / y < 1 / (2 powi (bitlen n - 1))"
    using y by (intro divide_strict_left_mono mult_pos_pos) auto
  also have "\<dots> = 2 powi (- bitlen n + 1)"
    by (simp add: power_int_minus_divide[symmetric])
  finally have 2: "x < 2 powi (- bitlen n + 1)" by (simp add: x)
  show ?thesis using False 1 2 by (simp add: ilog2_def n_def y_def)
qed

lemma ilog2_unique:
  assumes "2 powi e \<le> x" "x < 2 powi (e + 1)"
  shows "ilog2 x = e"
proof -
  have x: "0 < x" using assms(1) by (rule less_le_trans[rotated]) simp
  note b = ilog2_bounds[OF x]
  have "(2::rat) powi e < 2 powi (ilog2 x + 1)" using assms(1) b by linarith
  then have 1: "e < ilog2 x + 1"
    by (metis linorder_not_less one_le_numeral power_int_increasing)
  have "(2::rat) powi ilog2 x < 2 powi (e + 1)" using assms(2) b by linarith
  then have 2: "ilog2 x < e + 1"
    by (metis linorder_not_less one_le_numeral power_int_increasing)
  from 1 2 show ?thesis by simp
qed

lemma ilog2_mono:
  assumes "0 < x" "x \<le> y"
  shows "ilog2 x \<le> ilog2 y"
proof -
  have "(2::rat) powi ilog2 x < 2 powi (ilog2 y + 1)"
    using ilog2_bounds[OF assms(1)] ilog2_bounds[of y] assms by linarith
  then have "ilog2 x < ilog2 y + 1"
    by (metis linorder_not_less one_le_numeral power_int_increasing)
  then show ?thesis by simp
qed

lemma rne_of_int: "rne (of_int n) = n"
  by (simp add: rne_def)

lemma rne_bounds: "of_int (rne q) \<le> q + 1 / 2 \<and> q - 1 / 2 \<le> of_int (rne q)"
  unfolding rne_def Let_def by (auto simp: not_less) linarith+

lemma rne_mono:
  assumes "x \<le> y"
  shows "rne x \<le> rne y"
proof (cases "\<lfloor>x\<rfloor> = \<lfloor>y\<rfloor>")
  case True
  then show ?thesis using assms unfolding rne_def Let_def by auto
next
  case False
  then have "\<lfloor>x\<rfloor> + 1 \<le> \<lfloor>y\<rfloor>" using floor_mono[OF assms] by simp
  moreover have "rne x \<le> \<lfloor>x\<rfloor> + 1" unfolding rne_def Let_def by auto
  moreover have "\<lfloor>y\<rfloor> \<le> rne y" unfolding rne_def Let_def by auto
  ultimately show ?thesis by linarith
qed

lemma rne_minus: "rne (- q) = - rne q"
proof (cases "q = of_int \<lfloor>q\<rfloor>")
  case True
  then obtain n where "q = of_int n" ..
  then show ?thesis by (simp add: rne_of_int flip: of_int_minus)
next
  case False
  then have f: "of_int \<lfloor>q\<rfloor> < q" using of_int_floor_le[of q] by linarith
  have g: "q < of_int \<lfloor>q\<rfloor> + 1" using floor_correct[of q] by simp
  have m: "\<lfloor>- q\<rfloor> = - \<lfloor>q\<rfloor> - 1"
    by (rule floor_unique) (use f g in simp_all)
  show ?thesis unfolding rne_def Let_def m using f by (auto simp: algebra_simps)
qed

text \<open>The rounded value is within half a unit in the last place of the exact one.\<close>

lemma rnd_nearest:
  assumes "x \<noteq> 0"
  shows "\<bar>rnd x - x\<bar> \<le> 2 powi (max (ilog2 \<bar>x\<bar>) (- 1022) - 53)"
proof -
  define e where "e = max (ilog2 \<bar>x\<bar>) (- 1022)"
  define u :: rat where "u = 2 powi (e - 52)"
  have u: "0 < u" by (simp add: u_def)
  have "(2::rat) powi (e - 52) = 2 powi 1 * 2 powi (e - 53)"
    by (subst power_int_add[symmetric]) simp_all
  then have h: "2 powi (e - 53) = u / 2" by (simp add: u_def)
  have r: "rnd x = of_int (rne (x / u)) * u"
    using assms by (simp add: rnd_def Let_def e_def u_def)
  have "rnd x - x = (of_int (rne (x / u)) - x / u) * u"
    using u by (simp add: r algebra_simps)
  moreover have "\<bar>of_int (rne (x / u)) - x / u\<bar> \<le> 1 / 2"
    using rne_bounds[of "x / u"] by arith
  ultimately have "\<bar>rnd x - x\<bar> \<le> 1 / 2 * u"
    using u by (simp add: abs_mult mult_right_mono)
  then show ?thesis unfolding e_def[symmetric] h by simp
qed

lemma rnd_pos:
  assumes "0 < x"
  shows "rnd x = of_int (rne (x / 2 powi (max (ilog2 x) (- 1022) - 52))) *
           2 powi (max (ilog2 x) (- 1022) - 52)"
  using assms by (simp add: rnd_def Let_def)

lemma rnd_minus: "rnd (- x) = - rnd x"
  by (simp add: rnd_def Let_def rne_minus)

lemma rnd_nonneg:
  assumes "0 \<le> x"
  shows "0 \<le> rnd x"
proof (cases "x = 0")
  case True
  then show ?thesis by (simp add: rnd_def)
next
  case False
  with assms have x: "0 < x" by simp
  define u :: rat where "u = 2 powi (max (ilog2 x) (- 1022) - 52)"
  have u: "0 < u" by (simp add: u_def)
  have "rne 0 \<le> rne (x / u)" using x u by (intro rne_mono) simp
  then have "0 \<le> rne (x / u)" using rne_of_int[of 0] by simp
  then show ?thesis using u unfolding rnd_pos[OF x] u_def[symmetric] by simp
qed

lemma rnd_upper:
  assumes "0 < x"
  shows "rnd x \<le> 2 powi (max (ilog2 x) (- 1022) + 1)"
proof -
  define e where "e = max (ilog2 x) (- 1022)"
  define u :: rat where "u = 2 powi (e - 52)"
  have u: "0 < u" by (simp add: u_def)
  have "(2::rat) powi (e + 1) = 2 powi 53 * 2 powi (e - 52)"
    by (subst power_int_add[symmetric]) (simp_all add: add.commute)
  then have eu: "(2::rat) powi (e + 1) = 2 ^ 53 * u" by (simp add: u_def)
  have "x < 2 powi (ilog2 x + 1)" using ilog2_bounds[OF assms] by simp
  also have "\<dots> \<le> 2 powi (e + 1)" by (intro power_int_increasing) (simp_all add: e_def)
  finally have "x / u < 2 ^ 53" using u by (simp add: eu pos_divide_less_eq)
  then have "x / u \<le> of_int (2 ^ 53)" by simp
  then have "rne (x / u) \<le> rne (of_int (2 ^ 53))" by (rule rne_mono)
  then have "rne (x / u) \<le> 2 ^ 53" by (simp only: rne_of_int)
  then have "(of_int (rne (x / u)) :: rat) \<le> of_int (2 ^ 53)" by (simp only: of_int_le_iff)
  then have "of_int (rne (x / u)) * u \<le> 2 ^ 53 * u" using u by simp
  then show ?thesis unfolding rnd_pos[OF assms] e_def[symmetric] u_def[symmetric] eu .
qed

lemma rnd_lower:
  assumes "0 < x" "- 1022 \<le> ilog2 x"
  shows "2 powi (ilog2 x) \<le> rnd x"
proof -
  define e where "e = ilog2 x"
  have e: "max (ilog2 x) (- 1022) = e" using assms(2) by (simp add: e_def)
  define u :: rat where "u = 2 powi (e - 52)"
  have u: "0 < u" by (simp add: u_def)
  have "(2::rat) powi e = 2 powi 52 * 2 powi (e - 52)"
    by (subst power_int_add[symmetric]) simp_all
  then have eu: "(2::rat) powi e = 2 ^ 52 * u" by (simp add: u_def)
  have r: "rnd x = of_int (rne (x / u)) * u"
    unfolding rnd_pos[OF assms(1)] e u_def ..
  have "2 powi e \<le> x" using ilog2_bounds[OF assms(1)] by (simp add: e_def)
  then have "2 ^ 52 \<le> x / u" using u by (simp add: eu pos_le_divide_eq)
  then have "of_int (2 ^ 52) \<le> x / u" by simp
  then have "rne (of_int (2 ^ 52)) \<le> rne (x / u)" by (rule rne_mono)
  then have "2 ^ 52 \<le> rne (x / u)" by (simp only: rne_of_int)
  then have "(of_int (2 ^ 52) :: rat) \<le> of_int (rne (x / u))" by (simp only: of_int_le_iff)
  then have "2 ^ 52 * u \<le> of_int (rne (x / u)) * u" using u by simp
  then have "2 powi e \<le> rnd x" unfolding r eu .
  then show ?thesis by (simp only: e_def)
qed

lemma rnd_mono_pos:
  assumes "0 < x" "x \<le> y"
  shows "rnd x \<le> rnd y"
proof -
  have y: "0 < y" using assms by simp
  define ex where "ex = max (ilog2 x) (- 1022)"
  define ey where "ey = max (ilog2 y) (- 1022)"
  have le: "ex \<le> ey" using ilog2_mono[OF assms] by (simp add: ex_def ey_def)
  show ?thesis
  proof (cases "ex = ey")
    case True
    define u :: rat where "u = 2 powi (ex - 52)"
    have u: "0 < u" by (simp add: u_def)
    have "x / u \<le> y / u" using assms(2) u by (simp add: divide_right_mono)
    then have "rne (x / u) \<le> rne (y / u)" by (rule rne_mono)
    then have "(of_int (rne (x / u)) :: rat) \<le> of_int (rne (y / u))" by (simp only: of_int_le_iff)
    then have "of_int (rne (x / u)) * u \<le> of_int (rne (y / u)) * u" using u by simp
    then show ?thesis
      unfolding rnd_pos[OF assms(1)] rnd_pos[OF y] ex_def[symmetric] ey_def[symmetric]
        True[symmetric] u_def[symmetric] .
  next
    case False
    with le have lt: "ex + 1 \<le> ey" by simp
    then have big: "- 1022 \<le> ilog2 y" and ey: "ey = ilog2 y" by (simp_all add: ex_def ey_def)
    have "rnd x \<le> 2 powi (ex + 1)" using rnd_upper[OF assms(1)] by (simp add: ex_def)
    also have "\<dots> \<le> 2 powi ey" using lt by (intro power_int_increasing) simp_all
    also have "\<dots> \<le> rnd y" using rnd_lower[OF y big] by (simp add: ey)
    finally show ?thesis .
  qed
qed

lemma rnd_mono:
  assumes "x \<le> y"
  shows "rnd x \<le> rnd y"
proof -
  consider "0 < x" | "x \<le> 0" "0 \<le> y" | "y < 0" by linarith
  then show ?thesis
  proof cases
    case 1
    then show ?thesis using assms by (rule rnd_mono_pos)
  next
    case 2
    have "0 \<le> rnd (- x)" using 2 by (intro rnd_nonneg) simp
    then have "rnd x \<le> 0" by (simp add: rnd_minus)
    also have "0 \<le> rnd y" using 2 by (intro rnd_nonneg)
    finally show ?thesis .
  next
    case 3
    then have "rnd (- y) \<le> rnd (- x)" using assms by (intro rnd_mono_pos) simp_all
    then show ?thesis by (simp add: rnd_minus)
  qed
qed

lemma rnd_idem_pos:
  assumes "0 < x"
  shows "rnd (rnd x) = rnd x"
proof -
  define e where "e = max (ilog2 x) (- 1022)"
  define u :: rat where "u = 2 powi (e - 52)"
  define m where "m = rne (x / u)"
  have u: "0 < u" by (simp add: u_def)
  have r: "rnd x = of_int m * u"
    unfolding rnd_pos[OF assms] e_def[symmetric] u_def[symmetric] m_def ..
  have up: "rnd x \<le> 2 powi (e + 1)" using rnd_upper[OF assms] by (simp add: e_def)
  show ?thesis
  proof (cases "rnd x = 0")
    case True
    then show ?thesis by (simp add: rnd_def)
  next
    case False
    then have pos: "0 < rnd x" using rnd_nonneg[of x] assms by simp
    define e' where "e' = max (ilog2 (rnd x)) (- 1022)"
    define u' :: rat where "u' = 2 powi (e' - 52)"
    have u': "0 < u'" by (simp add: u'_def)
    have "\<exists>k::int. rnd x / u' = of_int k"
    proof (cases "rnd x = 2 powi (e + 1)")
      case True
      have "2 powi (e + 1) \<le> rnd x" "rnd x < 2 powi (e + 1 + 1)"
        unfolding True by (simp_all add: power_int_strict_increasing)
      then have "ilog2 (rnd x) = e + 1" by (rule ilog2_unique)
      then have "e' = e + 1" by (simp add: e'_def e_def)
      then have "rnd x / u' = 2 powi (e + 1) / 2 powi (e + 1 - 52)" by (simp add: True u'_def)
      also have "\<dots> = 2 powi 52" by (subst power_int_diff[symmetric]) simp_all
      also have "\<dots> = of_int (2 ^ 52)" by simp
      finally show ?thesis by blast
    next
      case False
      with up have "rnd x < 2 powi (e + 1)" by simp
      then have "2 powi ilog2 (rnd x) < (2::rat) powi (e + 1)"
        using ilog2_bounds[OF pos] by linarith
      then have "ilog2 (rnd x) < e + 1"
        by (metis linorder_not_less one_le_numeral power_int_increasing)
      then have le: "e' \<le> e" by (simp add: e'_def e_def)
      have "u / u' = 2 powi (e - e')"
        unfolding u_def u'_def by (subst power_int_diff[symmetric]) simp_all
      also have "\<dots> = of_int (2 ^ nat (e - e'))" using le by (simp add: power_int_def)
      finally have q: "u / u' = of_int (2 ^ nat (e - e'))" .
      have "rnd x / u' = of_int m * (u / u')" by (simp add: r)
      also have "\<dots> = of_int (m * 2 ^ nat (e - e'))" unfolding q by simp
      finally show ?thesis by blast
    qed
    then obtain k :: int where k: "rnd x / u' = of_int k" ..
    then have "rnd x = of_int k * u'" using u' by (simp add: field_simps)
    moreover have "rnd (rnd x) = of_int (rne (rnd x / u')) * u'"
      unfolding rnd_pos[OF pos] e'_def[symmetric] u'_def[symmetric] ..
    ultimately show ?thesis by (simp add: k rne_of_int)
  qed
qed

lemma rnd_idem: "rnd (rnd x) = rnd x"
proof -
  consider "0 < x" | "x = 0" | "0 < - x" by linarith
  then show ?thesis
  proof cases
    case 1
    then show ?thesis by (rule rnd_idem_pos)
  next
    case 2
    then show ?thesis by (simp add: rnd_def)
  next
    case 3
    from rnd_idem_pos[OF 3] show ?thesis by (simp add: rnd_minus)
  qed
qed

section \<open>Properties of the arithmetic\<close>

lemma fl_cases:
  obtains (fin) "fl x = Fin (rnd x)" "- (2 ^ 1024) < rnd x" "rnd x < 2 ^ 1024"
  | (pinf) "fl x = PInf" "2 ^ 1024 \<le> rnd x"
  | (ninf) "fl x = NInf" "rnd x \<le> - (2 ^ 1024)"
  unfolding fl_def Let_def by (cases "2 ^ 1024 \<le> rnd x"; cases "rnd x \<le> - (2 ^ 1024)") auto

lemma fl_rnd: "fl (rnd x) = fl x"
  by (simp add: fl_def rnd_idem)

lemma fl_idem:
  assumes "fl x = Fin r"
  shows "fl r = Fin r"
proof -
  from assms have "r = rnd x" by (cases x rule: fl_cases) auto
  then show ?thesis using assms fl_rnd[of x] by simp
qed

lemma is_double_iff: "is_double x \<longleftrightarrow> rnd x = x \<and> - (2 ^ 1024) < x \<and> x < 2 ^ 1024"
  unfolding is_double_def by (cases x rule: fl_cases) auto

lemma jadd_zero_fl: "jadd (Fin 0) (fl x) = fl x"
proof (cases x rule: fl_cases)
  case fin
  then show ?thesis using fl_rnd[of x] by simp
qed simp_all

lemma jadd_zero_jmul: "jadd (Fin 0) (jmul a b) = jmul a b"
  by (cases a; cases b) (simp_all add: jadd_zero_fl)

lemma lit_0: "js_lit 0 = Fin 0"
  by (simp add: js_lit_def fl_def rnd_def)

lemma weighted_sum_unfold:
  "weighted_sum i =
     jadd (jadd (jadd (jadd (jadd (jadd
       (jmul (voiceVolume i) (js_lit (15 / 100)))
       (jmul (voiceStability i) (js_lit (15 / 100))))
       (jmul (jsub (js_lit 100) (pauseFrequency i)) (js_lit (1 / 10))))
       (jmul (facialConfidence i) (js_lit (2 / 10))))
       (jmul (jadd (emotionPositivity i) (js_lit 50)) (js_lit (1 / 10))))
       (jmul (answerQuality i) (js_lit (15 / 100))))
       (jmul (answerCompleteness i) (js_lit (15 / 100)))"
  by (simp add: weighted_sum_def normalized_def weights_def get_prop_def lit_0 jadd_zero_jmul)

lemma weighted_sum_md_unfold:
  "weighted_sum_md i =
     jadd (jadd (jadd (jadd (jadd (jadd
       (jmul (voiceVolume i) (js_lit (15 / 100)))
       (jmul (voiceStability i) (js_lit (15 / 100))))
       (jmul (jsub (js_lit 100) (pauseFrequency i)) (js_lit (1 / 10))))
       (jmul (facialConfidence i) (js_lit (2 / 10))))
       (jmul (jadd (emotionPositivity i) (jdiv (js_lit 100) (js_lit 2))) (js_lit (1 / 10))))
       (jmul (answerQuality i) (js_lit (15 / 100))))
       (jmul (answerCompleteness i) (js_lit (15 / 100)))"
  by (simp add: weighted_sum_md_def normalizedInputs_def weights_def get_prop_def Let_def)

lemma half_of_100: "jdiv (js_lit 100) (js_lit 2) = js_lit 50"
  by (simp add: js_lit_def num_eval)

lemma weighted_sum_md_eq: "weighted_sum_md i = weighted_sum i"
  by (simp only: weighted_sum_md_unfold weighted_sum_unfold half_of_100)

lemma normalizedInputs_eq: "normalizedInputs i = normalized i"
  by (simp only: normalizedInputs_def normalized_def half_of_100)

lemma lit_15: "js_lit (15 / 100) = Fin (5404319552844595 / 36028797018963968)"
  by (simp add: js_lit_def num_eval)

lemma lit_1: "js_lit (1 / 10) = Fin (3602879701896397 / 36028797018963968)"
  by (simp add: js_lit_def num_eval)

lemma lit_2: "js_lit (2 / 10) = Fin (3602879701896397 / 18014398509481984)"
  by (simp add: js_lit_def num_eval)

lemma lit_ints:
  "js_lit 100 = Fin 100" "js_lit 50 = Fin 50" "js_lit 80 = Fin 80" "js_lit 65 = Fin 65"
  "js_lit 35 = Fin 35" "js_lit 2 = Fin 2"
  by (simp_all add: js_lit_def num_eval)

lemma lit_inputs:
  "js_lit 10 = Fin 10" "js_lit 20 = Fin 20" "js_lit 30 = Fin 30" "js_lit 40 = Fin 40"
  "js_lit 60 = Fin 60" "js_lit 72 = Fin 72" "js_lit 75 = Fin 75" "js_lit 78 = Fin 78"
  "js_lit 82 = Fin 82" "js_lit 85 = Fin 85" "js_lit 88 = Fin 88" "js_lit 90 = Fin 90"
  "js_lit 92 = Fin 92" "js_lit 95 = Fin 95" "js_lit 1000 = Fin 1000"
  by (simp_all add: js_lit_def num_eval)

lemma fl_mono:
  assumes "x \<le> y"
  shows "jge (fl y) (fl x)"
  using rnd_mono[OF assms]
  by (cases x rule: fl_cases; cases y rule: fl_cases) simp_all

lemma fl_not_NaN: "fl x \<noteq> NaN"
  by (cases x rule: fl_cases) simp_all

lemma jadd_NaN: "jadd a NaN = NaN" "jadd NaN a = NaN"
  by (cases a; simp)+

lemma jmul_NaN: "jmul a NaN = NaN" "jmul NaN a = NaN"
  by (cases a; simp)+

lemma jge_PInf: "a \<noteq> NaN \<Longrightarrow> jge PInf a"
  by (cases a) simp_all

lemma jge_NInf: "a \<noteq> NaN \<Longrightarrow> jge a NInf"
  by (cases a) simp_all

lemma jadd_Fin_not_NaN: "a \<noteq> NaN \<Longrightarrow> jadd a (Fin x) \<noteq> NaN"
  by (cases a) (simp_all add: fl_not_NaN)

lemma jadd_mono:
  assumes "jge b a" "x \<le> y"
  shows "jge (jadd b (Fin y)) (jadd a (Fin x))"
proof (cases a)
  case (Fin a')
  show ?thesis
  proof (cases b)
    case (Fin b')
    with \<open>a = Fin a'\<close> assms show ?thesis by (simp add: fl_mono)
  next
    case PInf
    with \<open>a = Fin a'\<close> show ?thesis by (simp add: jge_PInf fl_not_NaN)
  qed (use assms \<open>a = Fin a'\<close> in simp_all)
next
  case PInf
  with assms show ?thesis by (cases b) simp_all
next
  case NInf
  with assms have "b \<noteq> NaN" by (cases b) simp_all
  then show ?thesis using NInf by (simp add: jge_NInf jadd_Fin_not_NaN)
next
  case NaN
  with assms show ?thesis by (cases b) simp_all
qed

lemma Math_round_mono:
  assumes "jge b a"
  shows "jge (Math_round b) (Math_round a)"
  using assms by (cases a; cases b) (simp_all add: floor_mono)

lemma is_double_minus: "is_double x \<Longrightarrow> is_double (- x)"
  by (auto simp: is_double_iff rnd_minus)

lemma is_double_rnd:
  assumes "- (2 ^ 1024) < rnd x" "rnd x < 2 ^ 1024"
  shows "is_double (rnd x)"
  using assms by (simp add: is_double_iff rnd_idem)

lemma double_le_max:
  assumes "is_double p"
  shows "p \<le> 2 ^ 1024 - 2 ^ 971"
proof (rule ccontr)
  assume "\<not> p \<le> 2 ^ 1024 - 2 ^ 971"
  then have gt: "2 ^ 1024 - 2 ^ 971 < p" by simp
  from assms have r: "rnd p = p" and lt: "p < 2 ^ 1024" by (simp_all add: is_double_iff)
  have pos: "0 < p" using gt by (rule less_trans[rotated]) simp
  have "(2::rat) ^ 1023 \<le> 2 ^ 1024 - 2 ^ 971" by simp
  with gt have "2 powi 1023 \<le> p" by simp
  moreover have "p < 2 powi (1023 + 1)" using lt by simp
  ultimately have e: "ilog2 p = 1023" by (rule ilog2_unique)
  define m where "m = rne (p / 2 powi 971)"
  have "rnd p = of_int m * 2 powi 971"
    unfolding rnd_pos[OF pos] e m_def by simp
  with r have p: "p = of_int m * 2 ^ 971" by simp
  have "of_int m * (2::rat) ^ 971 < 2 ^ 53 * 2 ^ 971" using lt unfolding p by simp
  then have "(of_int m :: rat) < 2 ^ 53" by simp
  then have "(of_int m :: rat) < of_int (2 ^ 53)" by simp
  then have "m < 2 ^ 53" by (simp only: of_int_less_iff)
  then have "m \<le> 2 ^ 53 - 1" by simp
  then have "(of_int m :: rat) \<le> of_int (2 ^ 53 - 1)" by (simp only: of_int_le_iff)
  then have "of_int m * (2::rat) ^ 971 \<le> of_int (2 ^ 53 - 1) * 2 ^ 971" by simp
  also have "\<dots> = 2 ^ 1024 - 2 ^ 971" by simp
  finally show False using gt p by simp
qed

lemma double_abs_le_max:
  assumes "is_double p"
  shows "\<bar>p\<bar> \<le> 2 ^ 1024 - 2 ^ 971"
  using double_le_max[OF assms] double_le_max[OF is_double_minus[OF assms]] by simp

lemma rnd_max_plus: "rnd (2 ^ 1024 - 2 ^ 971 + 100) = 2 ^ 1024 - 2 ^ 971"
  by (simp add: num_eval)

lemma is_double_abs: "is_double x \<Longrightarrow> is_double \<bar>x\<bar>"
  by (cases "0 \<le> x") (simp_all add: abs_if is_double_minus)

lemma mul_weight:
  assumes "is_double v" "0 \<le> w" "w \<le> 1"
  shows "fl (v * w) = Fin (rnd (v * w))"
proof -
  from is_double_abs[OF assms(1)] have r: "rnd \<bar>v\<bar> = \<bar>v\<bar>" and lt: "\<bar>v\<bar> < 2 ^ 1024"
    by (simp_all add: is_double_iff)
  have "\<bar>v * w\<bar> \<le> \<bar>v\<bar> * 1" unfolding abs_mult using assms(2,3) by (intro mult_left_mono) simp_all
  then have b: "v * w \<le> \<bar>v\<bar>" "- \<bar>v\<bar> \<le> v * w" by simp_all
  from rnd_mono[OF b(1)] have 1: "rnd (v * w) < 2 ^ 1024" using r lt by simp
  from rnd_mono[OF b(2)] have 2: "- (2 ^ 1024) < rnd (v * w)" using r lt by (simp add: rnd_minus)
  from 1 2 show ?thesis by (cases "v * w" rule: fl_cases) simp_all
qed

lemma shift_fin:
  assumes "is_double p" "\<bar>c\<bar> \<le> 100"
  shows "fl (c + p) = Fin (rnd (c + p))" and "is_double (rnd (c + p))"
proof -
  have p: "\<bar>p\<bar> \<le> 2 ^ 1024 - 2 ^ 971" using assms(1) by (rule double_abs_le_max)
  have "c + p \<le> 2 ^ 1024 - 2 ^ 971 + 100" using p assms(2) by simp
  from rnd_mono[OF this] have "rnd (c + p) \<le> 2 ^ 1024 - 2 ^ 971" by (simp only: rnd_max_plus)
  then have 1: "rnd (c + p) < 2 ^ 1024" by (rule le_less_trans) simp
  have "- (2 ^ 1024 - 2 ^ 971 + 100) \<le> c + p" using p assms(2) by simp
  from rnd_mono[OF this] have "- (2 ^ 1024 - 2 ^ 971) \<le> rnd (c + p)"
    by (simp only: rnd_minus rnd_max_plus)
  then have 2: "- (2 ^ 1024) < rnd (c + p)" by (rule less_le_trans[rotated]) simp
  from 1 2 show "fl (c + p) = Fin (rnd (c + p))" by (cases "c + p" rule: fl_cases) simp_all
  from 1 2 show "is_double (rnd (c + p))" by (intro is_double_rnd) simp_all
qed

lemma fin_doubleE:
  assumes "fin_double a"
  obtains x where "a = Fin x" "is_double x"
  using assms by (cases a) simp_all

lemma term_mono:
  assumes "fin_double a" "fin_double b" "jge b a" "0 \<le> w" "w \<le> 1"
  obtains x y where "jmul a (Fin w) = Fin x" "jmul b (Fin w) = Fin y" "x \<le> y"
proof -
  from assms(1) obtain p where a: "a = Fin p" "is_double p" by (rule fin_doubleE)
  from assms(2) obtain q where b: "b = Fin q" "is_double q" by (rule fin_doubleE)
  from assms(3) have "p \<le> q" by (simp add: a b)
  then have "p * w \<le> q * w" using assms(4) by (rule mult_right_mono)
  then have "rnd (p * w) \<le> rnd (q * w)" by (rule rnd_mono)
  moreover have "jmul a (Fin w) = Fin (rnd (p * w))"
    using mul_weight[OF a(2) assms(4,5)] by (simp add: a)
  moreover have "jmul b (Fin w) = Fin (rnd (q * w))"
    using mul_weight[OF b(2) assms(4,5)] by (simp add: b)
  ultimately show ?thesis using that by blast
qed

lemma pause_normalized:
  assumes "fin_double a"
  shows "fin_double (jsub (Fin 100) a)"
proof -
  from assms obtain p where a: "a = Fin p" "is_double p" by (rule fin_doubleE)
  from shift_fin[OF is_double_minus[OF a(2)], of 100] show ?thesis
    by (simp add: a jsub_def)
qed

lemma pause_normalized_mono:
  assumes "fin_double a" "fin_double b" "jge a b"
  shows "jge (jsub (Fin 100) b) (jsub (Fin 100) a)"
proof -
  from assms(1) obtain p where a: "a = Fin p" by (rule fin_doubleE)
  from assms(2) obtain q where b: "b = Fin q" by (rule fin_doubleE)
  from assms(3) have "100 + - p \<le> 100 + - q" by (simp add: a b)
  from fl_mono[OF this] show ?thesis by (simp add: a b jsub_def)
qed

lemma emotion_normalized:
  assumes "fin_double a"
  shows "fin_double (jadd a (Fin 50))"
proof -
  from assms obtain p where a: "a = Fin p" "is_double p" by (rule fin_doubleE)
  from shift_fin[OF a(2), of 50] show ?thesis
    by (simp add: a add.commute)
qed

lemma emotion_normalized_mono:
  assumes "fin_double a" "fin_double b" "jge b a"
  shows "jge (jadd b (Fin 50)) (jadd a (Fin 50))"
  using assms(3) by (rule jadd_mono) simp

section \<open>The claims\<close>

lemmas sum_eval = weighted_sum_unfold lit_15 lit_1 lit_2 lit_0 lit_ints lit_inputs jsub_def

lemma weighted_sum_example: "weighted_sum confidenceData = Fin (8125 / 100)"
  unfolding sum_eval confidenceData_def by (simp add: num_eval)

lemma weighted_sum_borderline: "weighted_sum borderline_inputs = Fin (7975 / 100)"
  unfolding sum_eval borderline_inputs_def by (simp add: num_eval)

lemma weighted_sum_maximal: "weighted_sum maximal_inputs = Fin 105"
  unfolding sum_eval maximal_inputs_def by (simp add: num_eval)

lemma weighted_sum_higher: "weighted_sum higher_inputs = Fin (9225 / 100)"
  unfolding sum_eval higher_inputs_def by (simp add: num_eval)

lemma normalized_example:
  "normalized confidenceData =
     [(''voiceVolume'', Fin 75), (''voiceStability'', Fin 80), (''pauseFrequency'', Fin 80),
      (''facialConfidence'', Fin 85), (''emotionPositivity'', Fin 90),
      (''answerQuality'', Fin 78), (''answerCompleteness'', Fin 82)]"
  unfolding normalized_def confidenceData_def lit_ints lit_inputs jsub_def
  by (simp add: num_eval)

lemma calculateConfidenceScore_eval:
  "calculateConfidenceScore i =
     \<lparr>score = Math_round (weighted_sum i),
      level = (if jge (weighted_sum i) (Fin 80) then ''Very Confident''
               else if jge (weighted_sum i) (Fin 65) then ''Confident''
               else if jge (weighted_sum i) (Fin 50) then ''Moderately Confident''
               else ''Needs Improvement''),
      breakdown = normalized i\<rparr>"
  by (simp only: calculateConfidenceScore_def Let_def lit_ints)

lemma score_eval: "score (calculateConfidenceScore i) = Math_round (weighted_sum i)"
  by (simp add: calculateConfidenceScore_eval)

lemmas floor_eval = floor_rat_divide_numeral floor_rat_minus_divide_numeral

lemma calculateConfidenceScore_md_eval:
  "calculateConfidenceScore_md i =
     \<lparr>score = Math_round (weighted_sum i), level = getConfidenceLevel (weighted_sum i),
      breakdown = normalized i\<rparr>"
  by (simp only: calculateConfidenceScore_md_def Let_def weighted_sum_md_eq normalizedInputs_eq)

lemma getConfidenceLevel_eval:
  "getConfidenceLevel sc =
     (if jge sc (Fin 80) then ''Very Confident''
      else if jge sc (Fin 65) then ''Confident''
      else if jge sc (Fin 50) then ''Moderately Confident''
      else if jge sc (Fin 35) then ''Less Confident''
      else ''Needs Improvement'')"
  by (simp only: getConfidenceLevel_def lit_ints)

text \<open>
  The sum is the one the program computes, every product and every addition rounded. In exact
  arithmetic the inputs below give 52.5; the program's sum is the next binary64 value below
  it, and the score is 52.
\<close>

lemma weighted_sum_inexact:
  "weighted_sum
     \<lparr>voiceVolume = Fin 87, voiceStability = Fin 89, pauseFrequency = Fin 48,
      facialConfidence = Fin 10, emotionPositivity = Fin 10, answerQuality = Fin 56,
      answerCompleteness = Fin 30\<rparr> = Fin (105 / 2 - 1 / 2 ^ 47)"
  unfolding weighted_sum_unfold lit_15 lit_1 lit_2 lit_ints jsub_def by (simp add: num_eval)

lemma score_inexact:
  "score (calculateConfidenceScore
     \<lparr>voiceVolume = Fin 87, voiceStability = Fin 89, pauseFrequency = Fin 48,
      facialConfidence = Fin 10, emotionPositivity = Fin 10, answerQuality = Fin 56,
      answerCompleteness = Fin 30\<rparr>) = Fin 52"
  by (simp add: calculateConfidenceScore_eval weighted_sum_inexact floor_rat_divide_numeral)

text \<open>
  Between 35 and 50 the two versions give different levels: AI-COMPLETE-CODE.tsx has no
  ``Less Confident'' branch.
\<close>

lemma weighted_sum_low: "weighted_sum low_inputs = Fin 45"
  unfolding sum_eval low_inputs_def by (simp add: num_eval)

lemma levels_differ_below_50:
  "level (calculateConfidenceScore low_inputs) = ''Needs Improvement''"
  "level (calculateConfidenceScore_md low_inputs) = ''Less Confident''"
  by (simp_all add: calculateConfidenceScore_eval calculateConfidenceScore_md_eval
      getConfidenceLevel_eval weighted_sum_low)

text \<open>
  C1, as stated: the level is the label that the thresholds 80, 65, 50 and 35 give for the
  rounded score. It fails: the thresholds are applied to the sum before rounding. At the
  inputs below the sum is 79.75, the score 80 and the level ``Confident'', in both versions.
\<close>

theorem level_of_rounded_score_counterexample:
  "score (calculateConfidenceScore borderline_inputs) = Fin 80 \<and>
   level (calculateConfidenceScore borderline_inputs) = ''Confident'' \<and>
   level (calculateConfidenceScore_md borderline_inputs) = ''Confident'' \<and>
   getConfidenceLevel (score (calculateConfidenceScore borderline_inputs)) = ''Very Confident'' \<and>
   level (calculateConfidenceScore borderline_inputs)
     \<noteq> getConfidenceLevel (score (calculateConfidenceScore borderline_inputs))"
  by (simp add: calculateConfidenceScore_eval calculateConfidenceScore_md_eval
      getConfidenceLevel_eval weighted_sum_borderline floor_rat_divide_numeral)

text \<open>
  C1, amended: the level is the label that the fixed thresholds give for the weighted sum
  before rounding, the value \<open>s\<close> that \<^verbatim>\<open>Math.round\<close> turns into the score: \<open>s \<ge> 80\<close> gives
  ``Very Confident'', \<open>s \<ge> 65\<close> ``Confident'', \<open>s \<ge> 50\<close> ``Moderately Confident'',
  \<open>s \<ge> 35\<close> ``Less Confident'', anything else ``Needs Improvement''. The version of
  AI\_FEATURES\_IMPLEMENTATION.md does so for every input; the version of AI-COMPLETE-CODE.tsx
  whenever the sum is at least 50 or is not at least 35.
\<close>

theorem level_from_unrounded_sum:
  "(let s = (jadd (jadd (jadd (jadd (jadd (jadd
        (jmul (voiceVolume i) (js_lit (15 / 100)))
        (jmul (voiceStability i) (js_lit (15 / 100))))
        (jmul (jsub (js_lit 100) (pauseFrequency i)) (js_lit (1 / 10))))
        (jmul (facialConfidence i) (js_lit (2 / 10))))
        (jmul (jadd (emotionPositivity i) (js_lit 50)) (js_lit (1 / 10))))
        (jmul (answerQuality i) (js_lit (15 / 100))))
        (jmul (answerCompleteness i) (js_lit (15 / 100))))
    in score (calculateConfidenceScore i) = Math_round s \<and>
       score (calculateConfidenceScore_md i) = Math_round s \<and>
       level (calculateConfidenceScore_md i) =
         (if jge s (Fin 80) then ''Very Confident''
          else if jge s (Fin 65) then ''Confident''
          else if jge s (Fin 50) then ''Moderately Confident''
          else if jge s (Fin 35) then ''Less Confident''
          else ''Needs Improvement'') \<and>
       (jge s (Fin 50) \<or> \<not> jge s (Fin 35) \<longrightarrow>
          level (calculateConfidenceScore i) =
            (if jge s (Fin 80) then ''Very Confident''
             else if jge s (Fin 65) then ''Confident''
             else if jge s (Fin 50) then ''Moderately Confident''
             else if jge s (Fin 35) then ''Less Confident''
             else ''Needs Improvement'')))"
proof -
  have a: "jge x (Fin 50) \<Longrightarrow> jge x (Fin 35)" for x by (cases x) simp_all
  show ?thesis
    unfolding Let_def weighted_sum_unfold[symmetric]
    using a[of "weighted_sum i"]
    by (auto simp: calculateConfidenceScore_eval calculateConfidenceScore_md_eval
        getConfidenceLevel_eval)
qed

theorem level_from_unrounded_sum_witness:
  "jge (weighted_sum confidenceData) (Fin 50) \<and>
   level (calculateConfidenceScore confidenceData) = ''Very Confident'' \<and>
   level (calculateConfidenceScore_md confidenceData) = ''Very Confident'' \<and>
   level (calculateConfidenceScore_md borderline_inputs) = ''Confident'' \<and>
   level (calculateConfidenceScore_md low_inputs) = ''Less Confident''"
  using level_from_unrounded_sum[of confidenceData, unfolded Let_def weighted_sum_unfold[symmetric]]
    level_from_unrounded_sum[of borderline_inputs, unfolded Let_def weighted_sum_unfold[symmetric]]
    level_from_unrounded_sum[of low_inputs, unfolded Let_def weighted_sum_unfold[symmetric]]
  by (simp add: weighted_sum_example weighted_sum_borderline weighted_sum_low)

text \<open>
  C2: for inputs in the documented ranges the score should lie in [0, 100]. At the largest
  documented inputs the emotion positivity 100 is normalized to 150 and the score is 105.
\<close>

theorem score_above_range:
  "score (calculateConfidenceScore maximal_inputs) = Fin 105 \<and>
   score (calculateConfidenceScore_md maximal_inputs) = Fin 105 \<and>
   jadd (emotionPositivity maximal_inputs) (js_lit 50) = Fin 150"
proof -
  have "jadd (emotionPositivity maximal_inputs) (js_lit 50) = Fin 150"
    unfolding maximal_inputs_def lit_ints by (simp add: num_eval)
  then show ?thesis
    by (simp add: calculateConfidenceScore_eval calculateConfidenceScore_md_eval
        weighted_sum_maximal floor_rat_divide_numeral)
qed

text \<open>
  C3: the integration example gives the score 81, the level ``Very Confident'', the
  normalized pause frequency 80 and emotion positivity 90, and the sum 81.25 before rounding.
\<close>

theorem example_result:
  "calculateConfidenceScore confidenceData =
     \<lparr>score = Fin 81, level = ''Very Confident'',
      breakdown =
        [(''voiceVolume'', Fin 75), (''voiceStability'', Fin 80), (''pauseFrequency'', Fin 80),
         (''facialConfidence'', Fin 85), (''emotionPositivity'', Fin 90),
         (''answerQuality'', Fin 78), (''answerCompleteness'', Fin 82)]\<rparr>
   \<and> weighted_sum confidenceData = Fin (8125 / 100)"
  by (simp add: calculateConfidenceScore_eval weighted_sum_example normalized_example
      floor_rat_divide_numeral)


text \<open>
  C5: the score is \<^verbatim>\<open>Math.round\<close> of the sum of the normalized values times the weights
  0.15, 0.15, 0.1, 0.2, 0.1, 0.15, 0.15, added from left to right; the seven weights add up to
  exactly 1, both when added as numbers of the program and as the rationals they denote.
\<close>

theorem score_is_rounded_weighted_sum:
  "score (calculateConfidenceScore i) =
     Math_round
      (jadd (jadd (jadd (jadd (jadd (jadd
        (jmul (voiceVolume i) (js_lit (15 / 100)))
        (jmul (voiceStability i) (js_lit (15 / 100))))
        (jmul (jsub (js_lit 100) (pauseFrequency i)) (js_lit (1 / 10))))
        (jmul (facialConfidence i) (js_lit (2 / 10))))
        (jmul (jadd (emotionPositivity i) (js_lit 50)) (js_lit (1 / 10))))
        (jmul (answerQuality i) (js_lit (15 / 100))))
        (jmul (answerCompleteness i) (js_lit (15 / 100)))) \<and>
   foldl jadd (js_lit 0) (map snd weights) = Fin 1 \<and>
   sum_list (map (\<lambda>(k, w). case w of Fin r \<Rightarrow> r | _ \<Rightarrow> 0) weights) = 1"
proof (intro conjI)
  show "foldl jadd (js_lit 0) (map snd weights) = Fin 1"
    unfolding weights_def lit_15 lit_1 lit_2 lit_0 by (simp add: num_eval)
  show "sum_list (map (\<lambda>(k, w). case w of Fin r \<Rightarrow> r | _ \<Rightarrow> 0) weights) = 1"
    unfolding weights_def lit_15 lit_1 lit_2 by simp
qed (simp add: calculateConfidenceScore_def Let_def weighted_sum_unfold)

text \<open>
  C6: no input is rejected and none is clamped. For every input, whatever its fields, the
  breakdown holds the five plain inputs unchanged, \<^verbatim>\<open>100 - pauseFrequency\<close> and
  \<^verbatim>\<open>emotionPositivity + 50\<close>, and the score is \<^verbatim>\<open>Math.round\<close> of the sum of their products
  with the weights, with no other operation on any of them. A field that is NaN makes the
  score NaN; each of the seven fields, set to 1000 or to -1000, moves the score of the
  integration example outside [0, 100] by the same arithmetic.
\<close>

theorem no_rejection_no_clamping:
  "breakdown (calculateConfidenceScore i) =
     [(''voiceVolume'', voiceVolume i),
      (''voiceStability'', voiceStability i),
      (''pauseFrequency'', jsub (Fin 100) (pauseFrequency i)),
      (''facialConfidence'', facialConfidence i),
      (''emotionPositivity'', jadd (emotionPositivity i) (Fin 50)),
      (''answerQuality'', answerQuality i),
      (''answerCompleteness'', answerCompleteness i)] \<and>
   score (calculateConfidenceScore i) =
     Math_round
      (jadd (jadd (jadd (jadd (jadd (jadd
        (jmul (voiceVolume i) (js_lit (15 / 100)))
        (jmul (voiceStability i) (js_lit (15 / 100))))
        (jmul (jsub (js_lit 100) (pauseFrequency i)) (js_lit (1 / 10))))
        (jmul (facialConfidence i) (js_lit (2 / 10))))
        (jmul (jadd (emotionPositivity i) (js_lit 50)) (js_lit (1 / 10))))
        (jmul (answerQuality i) (js_lit (15 / 100))))
        (jmul (answerCompleteness i) (js_lit (15 / 100)))) \<and>
   score (calculateConfidenceScore (i\<lparr>voiceVolume := NaN\<rparr>)) = NaN \<and>
   score (calculateConfidenceScore (i\<lparr>voiceStability := NaN\<rparr>)) = NaN \<and>
   score (calculateConfidenceScore (i\<lparr>pauseFrequency := NaN\<rparr>)) = NaN \<and>
   score (calculateConfidenceScore (i\<lparr>facialConfidence := NaN\<rparr>)) = NaN \<and>
   score (calculateConfidenceScore (i\<lparr>emotionPositivity := NaN\<rparr>)) = NaN \<and>
   score (calculateConfidenceScore (i\<lparr>answerQuality := NaN\<rparr>)) = NaN \<and>
   score (calculateConfidenceScore (i\<lparr>answerCompleteness := NaN\<rparr>)) = NaN \<and>
   score (calculateConfidenceScore (confidenceData\<lparr>voiceVolume := Fin 1000\<rparr>)) = Fin 220 \<and>
   score (calculateConfidenceScore (confidenceData\<lparr>voiceVolume := Fin (- 1000)\<rparr>)) = Fin (- 80) \<and>
   score (calculateConfidenceScore (confidenceData\<lparr>voiceStability := Fin 1000\<rparr>)) = Fin 219 \<and>
   score (calculateConfidenceScore (confidenceData\<lparr>voiceStability := Fin (- 1000)\<rparr>)) = Fin (- 81) \<and>
   score (calculateConfidenceScore (confidenceData\<lparr>pauseFrequency := Fin 1000\<rparr>)) = Fin (- 17) \<and>
   score (calculateConfidenceScore (confidenceData\<lparr>pauseFrequency := Fin (- 1000)\<rparr>)) = Fin 183 \<and>
   score (calculateConfidenceScore (confidenceData\<lparr>facialConfidence := Fin 1000\<rparr>)) = Fin 264 \<and>
   score (calculateConfidenceScore (confidenceData\<lparr>facialConfidence := Fin (- 1000)\<rparr>)) = Fin (- 136) \<and>
   score (calculateConfidenceScore (confidenceData\<lparr>emotionPositivity := Fin 1000\<rparr>)) = Fin 177 \<and>
   score (calculateConfidenceScore (confidenceData\<lparr>emotionPositivity := Fin (- 1000)\<rparr>)) = Fin (- 23) \<and>
   score (calculateConfidenceScore (confidenceData\<lparr>answerQuality := Fin 1000\<rparr>)) = Fin 220 \<and>
   score (calculateConfidenceScore (confidenceData\<lparr>answerQuality := Fin (- 1000)\<rparr>)) = Fin (- 80) \<and>
   score (calculateConfidenceScore (confidenceData\<lparr>answerCompleteness := Fin 1000\<rparr>)) = Fin 219 \<and>
   score (calculateConfidenceScore (confidenceData\<lparr>answerCompleteness := Fin (- 1000)\<rparr>)) = Fin (- 81)"
proof -
  have general:
    "breakdown (calculateConfidenceScore i) =
       [(''voiceVolume'', voiceVolume i),
        (''voiceStability'', voiceStability i),
        (''pauseFrequency'', jsub (Fin 100) (pauseFrequency i)),
        (''facialConfidence'', facialConfidence i),
        (''emotionPositivity'', jadd (emotionPositivity i) (Fin 50)),
        (''answerQuality'', answerQuality i),
        (''answerCompleteness'', answerCompleteness i)]"
    "score (calculateConfidenceScore i) =
       Math_round
        (jadd (jadd (jadd (jadd (jadd (jadd
        (jmul (voiceVolume i) (js_lit (15 / 100)))
        (jmul (voiceStability i) (js_lit (15 / 100))))
        (jmul (jsub (js_lit 100) (pauseFrequency i)) (js_lit (1 / 10))))
        (jmul (facialConfidence i) (js_lit (2 / 10))))
        (jmul (jadd (emotionPositivity i) (js_lit 50)) (js_lit (1 / 10))))
        (jmul (answerQuality i) (js_lit (15 / 100))))
        (jmul (answerCompleteness i) (js_lit (15 / 100))))"
    by (simp_all add: calculateConfidenceScore_def Let_def normalized_def lit_ints
        weighted_sum_unfold)
  have nan:
    "score (calculateConfidenceScore (i\<lparr>voiceVolume := NaN\<rparr>)) = NaN"
    "score (calculateConfidenceScore (i\<lparr>voiceStability := NaN\<rparr>)) = NaN"
    "score (calculateConfidenceScore (i\<lparr>pauseFrequency := NaN\<rparr>)) = NaN"
    "score (calculateConfidenceScore (i\<lparr>facialConfidence := NaN\<rparr>)) = NaN"
    "score (calculateConfidenceScore (i\<lparr>emotionPositivity := NaN\<rparr>)) = NaN"
    "score (calculateConfidenceScore (i\<lparr>answerQuality := NaN\<rparr>)) = NaN"
    "score (calculateConfidenceScore (i\<lparr>answerCompleteness := NaN\<rparr>)) = NaN"
    by (simp_all add: score_eval weighted_sum_unfold jsub_def jadd_NaN jmul_NaN)
  have ex:
    "score (calculateConfidenceScore (confidenceData\<lparr>voiceVolume := Fin 1000\<rparr>)) = Fin 220"
    "score (calculateConfidenceScore (confidenceData\<lparr>voiceVolume := Fin (- 1000)\<rparr>)) = Fin (- 80)"
    "score (calculateConfidenceScore (confidenceData\<lparr>voiceStability := Fin 1000\<rparr>)) = Fin 219"
    "score (calculateConfidenceScore (confidenceData\<lparr>voiceStability := Fin (- 1000)\<rparr>)) = Fin (- 81)"
    "score (calculateConfidenceScore (confidenceData\<lparr>pauseFrequency := Fin 1000\<rparr>)) = Fin (- 17)"
    "score (calculateConfidenceScore (confidenceData\<lparr>pauseFrequency := Fin (- 1000)\<rparr>)) = Fin 183"
    "score (calculateConfidenceScore (confidenceData\<lparr>facialConfidence := Fin 1000\<rparr>)) = Fin 264"
    "score (calculateConfidenceScore (confidenceData\<lparr>facialConfidence := Fin (- 1000)\<rparr>)) = Fin (- 136)"
    "score (calculateConfidenceScore (confidenceData\<lparr>emotionPositivity := Fin 1000\<rparr>)) = Fin 177"
    "score (calculateConfidenceScore (confidenceData\<lparr>emotionPositivity := Fin (- 1000)\<rparr>)) = Fin (- 23)"
    "score (calculateConfidenceScore (confidenceData\<lparr>answerQuality := Fin 1000\<rparr>)) = Fin 220"
    "score (calculateConfidenceScore (confidenceData\<lparr>answerQuality := Fin (- 1000)\<rparr>)) = Fin (- 80)"
    "score (calculateConfidenceScore (confidenceData\<lparr>answerCompleteness := Fin 1000\<rparr>)) = Fin 219"
    "score (calculateConfidenceScore (confidenceData\<lparr>answerCompleteness := Fin (- 1000)\<rparr>)) = Fin (- 81)"
    unfolding score_eval sum_eval confidenceData_def
    by (simp_all add: num_eval floor_eval)
  from general nan ex show ?thesis by (intro conjI)
qed

lemma authenticateToken_body:
  assumes "authenticateToken jwt_verify req = Inr req'"
  shows "body req' = body req"
  using assms
  by (auto simp: authenticateToken_def Let_def split: option.splits list.splits if_splits)

text \<open>
  C8, as stated: every authenticated request gets the fixed mock evaluation, whatever its
  body. It fails for a request without a parsed body: the destructuring of \<^verbatim>\<open>req.body\<close>
  throws inside the \<^verbatim>\<open>try\<close> and the handler answers 500.
\<close>

theorem evaluate_answer_bodyless_counterexample:
  "authenticateToken accept_all bodyless_request
     = Inr (bodyless_request\<lparr>user := Some (JStr ''abc'')\<rparr>) \<and>
   app_post (authenticateToken accept_all) evaluate_answer bodyless_request
     = SendJson 500 (JObj [(''error'', JStr ''Evaluation failed'')])"
  by (simp add: authenticateToken_def app_post_def evaluate_answer_def destructure_def
      bodyless_request_def accept_all_def)

text \<open>
  C8, amended: for every authenticated request the facial-analysis route of the setup guide
  returns the fixed mock result, and whenever the body is neither \<^verbatim>\<open>undefined\<close> nor
  \<^verbatim>\<open>null\<close> both answer-evaluation routes return their fixed mock evaluation (correctness 85,
  completeness 78, clarity 82) and the facial-analysis route of the quick start guide the same
  fixed mock result (confidence 85, the six emotions, eye contact 80, head position center).
\<close>

theorem mock_endpoints:
  assumes "authenticateToken jwt_verify req = Inr req'"
  shows "app_post (authenticateToken jwt_verify) analyze_facial req =
           SendJson 200 (JObj
             [(''confidence'', JNum 85),
              (''emotions'', JObj [(''happy'', JNum 45), (''neutral'', JNum 30),
                 (''sad'', JNum 10), (''angry'', JNum 5), (''fearful'', JNum 5),
                 (''surprised'', JNum 5)]),
              (''eyeContact'', JNum 80),
              (''headPosition'', JStr ''center'')]) \<and>
         (destructure (body req) = Inr b \<longrightarrow>
            app_post (authenticateToken jwt_verify) evaluate_answer req =
              SendJson 200 (JObj [(''evaluation'', JObj
                [(''correctness'', JNum 85),
                 (''completeness'', JNum 78),
                 (''clarity'', JNum 82),
                 (''keyPoints'', JArr [JStr ''Point 1'', JStr ''Point 2'']),
                 (''missingPoints'', JArr [JStr ''Missing 1'']),
                 (''suggestions'', JArr [JStr ''Add more detail'', JStr ''Be concise''])])]) \<and>
            app_post (authenticateToken jwt_verify) evaluate_answer_qs req =
              SendJson 200 (JObj [(''evaluation'', JObj
                [(''correctness'', JNum 85),
                 (''completeness'', JNum 78),
                 (''clarity'', JNum 82),
                 (''keyPoints'', JArr [JStr ''Key point 1'', JStr ''Key point 2'']),
                 (''missingPoints'', JArr [JStr ''Missing 1'']),
                 (''suggestions'', JArr [JStr ''Suggestion 1''])])]) \<and>
            app_post (authenticateToken jwt_verify) analyze_facial_qs req =
              app_post (authenticateToken jwt_verify) analyze_facial req)"
  using authenticateToken_body[OF assms] assms
  by (simp add: app_post_def analyze_facial_def evaluate_answer_def evaluate_answer_qs_def
      analyze_facial_qs_def)

theorem mock_endpoints_witness:
  "authenticateToken accept_all bearer_request
     = Inr (bearer_request\<lparr>user := Some (JStr ''abc'')\<rparr>) \<and>
   destructure (body bearer_request)
     = Inr (JObj [(''question'', JStr ''q''), (''userAnswer'', JStr ''a'')]) \<and>
   app_post (authenticateToken accept_all) evaluate_answer bearer_request =
     SendJson 200 (JObj [(''evaluation'', JObj
       [(''correctness'', JNum 85),
        (''completeness'', JNum 78),
        (''clarity'', JNum 82),
        (''keyPoints'', JArr [JStr ''Point 1'', JStr ''Point 2'']),
        (''missingPoints'', JArr [JStr ''Missing 1'']),
        (''suggestions'', JArr [JStr ''Add more detail'', JStr ''Be concise''])])])"
proof -
  have a: "authenticateToken accept_all bearer_request
      = Inr (bearer_request\<lparr>user := Some (JStr ''abc'')\<rparr>)"
    by (simp add: authenticateToken_def bearer_request_def accept_all_def)
  have d: "destructure (body bearer_request)
      = Inr (JObj [(''question'', JStr ''q''), (''userAnswer'', JStr ''a'')])"
    by (simp add: destructure_def bearer_request_def)
  from mock_endpoints[OF a, of "JObj [(''question'', JStr ''q''), (''userAnswer'', JStr ''a'')]"] a d
  show ?thesis by simp
qed

text \<open>
  C9: the two versions of \<^verbatim>\<open>calculateConfidenceScore\<close> return the same score and the same
  breakdown for every input (\<^verbatim>\<open>value + 100 / 2\<close> is \<^verbatim>\<open>value + 50\<close>).
\<close>

theorem implementations_agree:
  "score (calculateConfidenceScore i) = score (calculateConfidenceScore_md i) \<and>
   breakdown (calculateConfidenceScore i) = breakdown (calculateConfidenceScore_md i)"
  by (simp add: calculateConfidenceScore_eval calculateConfidenceScore_md_eval)

text \<open>
  C10, as stated: for all inputs, raising the voice volume with the other six inputs fixed
  never lowers the weighted sum. It fails when fields are infinite: with the voice stability
  \<open>-\<infinity>\<close>, raising the voice volume from 0 to \<open>+\<infinity>\<close> takes the sum from \<open>-\<infinity>\<close> to
  NaN, which is not at least any number.
\<close>

theorem weighted_sum_monotone_counterexample:
  "jge (voiceVolume infinite_inputs_high) (voiceVolume infinite_inputs_low) \<and>
   voiceStability infinite_inputs_high = voiceStability infinite_inputs_low \<and>
   pauseFrequency infinite_inputs_high = pauseFrequency infinite_inputs_low \<and>
   facialConfidence infinite_inputs_high = facialConfidence infinite_inputs_low \<and>
   emotionPositivity infinite_inputs_high = emotionPositivity infinite_inputs_low \<and>
   answerQuality infinite_inputs_high = answerQuality infinite_inputs_low \<and>
   answerCompleteness infinite_inputs_high = answerCompleteness infinite_inputs_low \<and>
   weighted_sum infinite_inputs_low = NInf \<and>
   weighted_sum infinite_inputs_high = NaN \<and>
   \<not> jge (weighted_sum infinite_inputs_high) (weighted_sum infinite_inputs_low) \<and>
   \<not> jge (score (calculateConfidenceScore infinite_inputs_high))
       (score (calculateConfidenceScore infinite_inputs_low))"
proof -
  have l: "weighted_sum infinite_inputs_low = NInf"
    unfolding sum_eval infinite_inputs_low_def by (simp add: num_eval)
  have h: "weighted_sum infinite_inputs_high = NaN"
    unfolding sum_eval infinite_inputs_high_def by (simp add: num_eval)
  show ?thesis
    unfolding score_eval l h by (simp add: infinite_inputs_low_def infinite_inputs_high_def)
qed

text \<open>
  C10, amended: for finite inputs, raising any of voice volume, voice stability, facial
  confidence, emotion positivity, answer quality and answer completeness, or lowering the
  pause frequency, the other inputs fixed or moved the same way, never lowers the weighted
  sum, nor the rounded score.
\<close>

theorem weighted_sum_monotone:
  assumes "finite_inputs i" "finite_inputs j"
    and "jge (voiceVolume j) (voiceVolume i)"
    and "jge (voiceStability j) (voiceStability i)"
    and "jge (pauseFrequency i) (pauseFrequency j)"
    and "jge (facialConfidence j) (facialConfidence i)"
    and "jge (emotionPositivity j) (emotionPositivity i)"
    and "jge (answerQuality j) (answerQuality i)"
    and "jge (answerCompleteness j) (answerCompleteness i)"
  shows "jge (weighted_sum j) (weighted_sum i) \<and>
         jge (score (calculateConfidenceScore j)) (score (calculateConfidenceScore i))"
proof -
  note fi = assms(1)[unfolded finite_inputs_def] and fj = assms(2)[unfolded finite_inputs_def]
  obtain x1 y1 where t1: "jmul (voiceVolume i) (js_lit (15 / 100)) = Fin x1"
      "jmul (voiceVolume j) (js_lit (15 / 100)) = Fin y1" "x1 \<le> y1"
    unfolding lit_15 using fi fj assms(3) by (elim conjE term_mono[rotated 5]) simp_all
  obtain x2 y2 where t2: "jmul (voiceStability i) (js_lit (15 / 100)) = Fin x2"
      "jmul (voiceStability j) (js_lit (15 / 100)) = Fin y2" "x2 \<le> y2"
    unfolding lit_15 using fi fj assms(4) by (elim conjE term_mono[rotated 5]) simp_all
  have "fin_double (jsub (js_lit 100) (pauseFrequency i))"
    "fin_double (jsub (js_lit 100) (pauseFrequency j))"
    "jge (jsub (js_lit 100) (pauseFrequency j)) (jsub (js_lit 100) (pauseFrequency i))"
    unfolding lit_ints using fi fj assms(5)
    by (simp_all add: pause_normalized pause_normalized_mono)
  then obtain x3 y3 where t3:
      "jmul (jsub (js_lit 100) (pauseFrequency i)) (js_lit (1 / 10)) = Fin x3"
      "jmul (jsub (js_lit 100) (pauseFrequency j)) (js_lit (1 / 10)) = Fin y3" "x3 \<le> y3"
    unfolding lit_1 by (elim term_mono[rotated 5]) simp_all
  obtain x4 y4 where t4: "jmul (facialConfidence i) (js_lit (2 / 10)) = Fin x4"
      "jmul (facialConfidence j) (js_lit (2 / 10)) = Fin y4" "x4 \<le> y4"
    unfolding lit_2 using fi fj assms(6) by (elim conjE term_mono[rotated 5]) simp_all
  have "fin_double (jadd (emotionPositivity i) (js_lit 50))"
    "fin_double (jadd (emotionPositivity j) (js_lit 50))"
    "jge (jadd (emotionPositivity j) (js_lit 50)) (jadd (emotionPositivity i) (js_lit 50))"
    unfolding lit_ints using fi fj assms(7)
    by (simp_all add: emotion_normalized emotion_normalized_mono)
  then obtain x5 y5 where t5:
      "jmul (jadd (emotionPositivity i) (js_lit 50)) (js_lit (1 / 10)) = Fin x5"
      "jmul (jadd (emotionPositivity j) (js_lit 50)) (js_lit (1 / 10)) = Fin y5" "x5 \<le> y5"
    unfolding lit_1 by (elim term_mono[rotated 5]) simp_all
  obtain x6 y6 where t6: "jmul (answerQuality i) (js_lit (15 / 100)) = Fin x6"
      "jmul (answerQuality j) (js_lit (15 / 100)) = Fin y6" "x6 \<le> y6"
    unfolding lit_15 using fi fj assms(8) by (elim conjE term_mono[rotated 5]) simp_all
  obtain x7 y7 where t7: "jmul (answerCompleteness i) (js_lit (15 / 100)) = Fin x7"
      "jmul (answerCompleteness j) (js_lit (15 / 100)) = Fin y7" "x7 \<le> y7"
    unfolding lit_15 using fi fj assms(9) by (elim conjE term_mono[rotated 5]) simp_all
  have s: "jge (weighted_sum j) (weighted_sum i)"
    unfolding weighted_sum_unfold t1 t2 t3 t4 t5 t6 t7
    by (intro jadd_mono) (simp_all add: t1 t2 t3 t4 t5 t6 t7)
  then have "jge (Math_round (weighted_sum j)) (Math_round (weighted_sum i))"
    by (rule Math_round_mono)
  with s show ?thesis by (simp add: calculateConfidenceScore_def Let_def)
qed

theorem weighted_sum_monotone_witness:
  "finite_inputs confidenceData \<and> finite_inputs higher_inputs \<and>
   jge (pauseFrequency confidenceData) (pauseFrequency higher_inputs) \<and>
   jge (weighted_sum higher_inputs) (weighted_sum confidenceData) \<and>
   jge (score (calculateConfidenceScore higher_inputs))
     (score (calculateConfidenceScore confidenceData))"
proof -
  have f: "finite_inputs confidenceData" "finite_inputs higher_inputs"
    unfolding finite_inputs_def confidenceData_def higher_inputs_def lit_ints lit_inputs
    by (simp_all add: is_double_def num_eval)
  have h: "jge (voiceVolume higher_inputs) (voiceVolume confidenceData)"
    "jge (voiceStability higher_inputs) (voiceStability confidenceData)"
    "jge (pauseFrequency confidenceData) (pauseFrequency higher_inputs)"
    "jge (facialConfidence higher_inputs) (facialConfidence confidenceData)"
    "jge (emotionPositivity higher_inputs) (emotionPositivity confidenceData)"
    "jge (answerQuality higher_inputs) (answerQuality confidenceData)"
    "jge (answerCompleteness higher_inputs) (answerCompleteness confidenceData)"
    unfolding confidenceData_def higher_inputs_def lit_ints lit_inputs by simp_all
  from weighted_sum_monotone[OF f h] f h(3) show ?thesis by simp
qed

end
